theory Spec2Isabelle
  imports Complex_Main
begin

section \<open>Conjugate gradients: the solver of conjgrad/solve.go\<close>

text \<open>
  The solver works on \<open>float64\<close> vectors. Its lines are embedded twice. The first
  embedding reads them in exact arithmetic: a scalar is a \<^typ>\<open>real\<close>, a
  \<open>linalg.Vector\<close> is a list of reals. It carries the statements about the control
  flow and the algebra of a step, and those made for exact arithmetic. It knows no rounding,
  no infinity and no not-a-number value, and a quotient whose denominator is zero is
  \<open>0\<close> in it; what the program does there is the matter of the second embedding,
  over float64 values, further down.
\<close>

type_synonym Vector = "real list"

subsection \<open>The vector primitives\<close>

text \<open>
  The solver imports the vector type and its methods from package \<open>linalg\<close>, which
  is not part of the solver's file; the four methods it calls are modelled from the spec's
  list of vector primitives (copy, in-place scale by a scalar, in-place element-wise add,
  dot product, fixed length). \<open>Scale\<close> and \<open>Add\<close> overwrite their receiver and
  return it; the solver applies them to a vector it owns or to a fresh copy, so the new
  value is all that is observable. On vectors of different lengths the spec leaves the
  primitives undefined; the model then cuts to the shorter one, which is meaningful for
  equal lengths only.
\<close>

text \<open>Modelled from the spec: \<open>Vector.Copy\<close> of the absent package \<open>linalg\<close>,
  a new vector with the same entries.\<close>

definition Copy :: "Vector \<Rightarrow> Vector" where
  "Copy v = v"

text \<open>Modelled from the spec: \<open>Vector.Scale\<close> of the absent package \<open>linalg\<close>,
  every entry multiplied by the scalar.\<close>

definition Scale :: "Vector \<Rightarrow> real \<Rightarrow> Vector" where
  "Scale v s = map (\<lambda>x. x * s) v"

text \<open>Modelled from the spec: \<open>Vector.Add\<close> of the absent package \<open>linalg\<close>,
  the element-wise sum.\<close>

definition Add :: "Vector \<Rightarrow> Vector \<Rightarrow> Vector" where
  "Add v v1 = map2 (\<lambda>x y. x + y) v v1"

text \<open>Modelled from the spec: \<open>Vector.Dot\<close> of the absent package \<open>linalg\<close>,
  the sum of the element-wise products, here the exact sum of the exact products; the
  rounded one is \<open>Dot64\<close>.\<close>

definition Dot :: "Vector \<Rightarrow> Vector \<Rightarrow> real" where
  "Dot v v1 = sum_list (map2 (\<lambda>x y. x * y) v v1)"

text \<open>\<open>make(linalg.Vector, n)\<close>: the vector of \<open>n\<close> zeros.\<close>

definition makeVector :: "nat \<Rightarrow> Vector" where
  "makeVector n = replicate n 0"

subsection \<open>The operator and the cancellation channel\<close>

text \<open>
  \<open>LinTran\<close> is an interface with \<open>Dim()\<close> and \<open>Apply(v)\<close>. \<open>Apply\<close> is a
  function of its argument that returns a vector of its own (it does not hand back its
  argument's storage), as the spec requires of an operator.
\<close>

record LinTran =
  Dim :: nat
  Apply :: "Vector \<Rightarrow> Vector"

text \<open>
  \<open>cancelChan\<close> is a receive-only channel, possibly \<open>nil\<close>. The solver only ever
  polls it, once at the end of each completed loop body, with a \<open>select\<close> that has a
  \<open>default\<close> branch. What the other goroutines do to the channel is given as the
  answer of that poll in iteration \<open>i\<close>. A \<open>nil\<close> channel is never ready.
\<close>

datatype Chan = NilChan | Channel "nat \<Rightarrow> bool"

fun poll :: "Chan \<Rightarrow> nat \<Rightarrow> bool" where
  "poll NilChan i = False"
| "poll (Channel ready) i = ready i"

subsection \<open>The helpers\<close>

fun allZero :: "Vector \<Rightarrow> bool" where
  "allZero [] = True"
| "allZero (x # v) = (if x \<noteq> 0 then False else allZero v)"

text \<open>\<open>greatestValue\<close>: the running maximum starts at \<open>0\<close>.\<close>

fun greatestFrom :: "real \<Rightarrow> Vector \<Rightarrow> real" where
  "greatestFrom m [] = m"
| "greatestFrom m (x # v) = greatestFrom (max m \<bar>x\<bar>) v"

definition greatestValue :: "Vector \<Rightarrow> real" where
  "greatestValue v = greatestFrom 0 v"

subsection \<open>The loop of SolveStoppable\<close>

definition residualUpdateFrequency :: nat where
  "residualUpdateFrequency = 20"

record state =
  conjVec :: Vector
  residual :: Vector
  solution :: Vector
  lastResidualDot :: real

text \<open>
  The variables before the loop: \<open>conjVec\<close> is a nil slice, \<open>lastResidualDot\<close> is
  zero, \<open>residual\<close> is a copy of \<open>b\<close>, \<open>solution\<close> has \<open>t.Dim()\<close> zeros.
\<close>

definition init :: "LinTran \<Rightarrow> Vector \<Rightarrow> state" where
  "init t b = \<lparr>conjVec = [], residual = Copy b, solution = makeVector (Dim t),
     lastResidualDot = 0\<rparr>"

text \<open>Lines 39 to 47: the new search direction.\<close>

definition direction :: "nat \<Rightarrow> state \<Rightarrow> state" where
  "direction i s =
     (if i = 0 then
        (let cv = Copy (residual s)
         in s\<lparr>conjVec := cv, lastResidualDot := Dot cv cv\<rparr>)
      else
        (let residualDot = Dot (residual s) (residual s);
             projAmount = - residualDot / lastResidualDot s
         in s\<lparr>lastResidualDot := residualDot,
               conjVec := Add (Copy (residual s)) (Scale (conjVec s) (- projAmount))\<rparr>))"

text \<open>Line 51: the step length along the direction.\<close>

definition optimalDistance :: "LinTran \<Rightarrow> state \<Rightarrow> real" where
  "optimalDistance t s = Dot (conjVec s) (residual s) / Dot (conjVec s) (Apply t (conjVec s))"

text \<open>Lines 53 to 58: the solution and the residual after the step.\<close>

definition advance :: "LinTran \<Rightarrow> Vector \<Rightarrow> nat \<Rightarrow> state \<Rightarrow> state" where
  "advance t b i s =
     (let od = optimalDistance t s;
          sol = Add (solution s) (Scale (Copy (conjVec s)) od)
      in if i \<noteq> 0 \<and> i mod residualUpdateFrequency = 0
         then s\<lparr>solution := sol, residual := Add (Scale (Apply t sol) (- 1)) b\<rparr>
         else s\<lparr>solution := sol,
                 residual := Add (residual s) (Scale (Apply t (conjVec s)) (- od))\<rparr>)"

text \<open>
  The ways out of the loop. The tag is bookkeeping of the model: the Go function
  returns a vector and nothing else.
\<close>

datatype exit = Converged | Degenerate | Cancelled | CapReached

text \<open>
  One run of the loop body in iteration \<open>i\<close>: \<open>Inl\<close> when the body leaves the loop
  (a \<open>break\<close> or the \<open>return\<close> of the \<open>select\<close>), \<open>Inr\<close> when the loop goes on.
\<close>

definition body :: "LinTran \<Rightarrow> Vector \<Rightarrow> real \<Rightarrow> Chan \<Rightarrow> nat \<Rightarrow> state \<Rightarrow> (exit \<times> state) + state" where
  "body t b prec cancelChan i s =
     (if greatestValue (residual s) \<le> prec then Inl (Converged, s)
      else
        (let s1 = direction i s
         in if allZero (conjVec s1) then Inl (Degenerate, s1)
            else
              (let s2 = advance t b i s1
               in if poll cancelChan i then Inl (Cancelled, s2) else Inr s2)))"

text \<open>
  The \<open>for\<close> loop from iteration \<open>i\<close> on. The result holds the way out, the value of
  \<open>i\<close> there and the variables there.
\<close>

function loop :: "LinTran \<Rightarrow> Vector \<Rightarrow> real \<Rightarrow> Chan \<Rightarrow> nat \<Rightarrow> state \<Rightarrow> exit \<times> nat \<times> state" where
  "loop t b prec cancelChan i s =
     (if i < Dim t then
        (case body t b prec cancelChan i s of
           Inl r \<Rightarrow> (fst r, i, snd r)
         | Inr s' \<Rightarrow> loop t b prec cancelChan (i + 1) s')
      else (CapReached, i, s))"
  by pat_completeness auto
termination
  by (relation "measure (\<lambda>(t, b, prec, cancelChan, i, s). Dim t - i)") auto

definition SolveStoppable :: "LinTran \<Rightarrow> Vector \<Rightarrow> real \<Rightarrow> Chan \<Rightarrow> Vector" where
  "SolveStoppable t b prec cancelChan =
     solution (snd (snd (loop t b prec cancelChan 0 (init t b))))"

definition SolvePrec :: "LinTran \<Rightarrow> Vector \<Rightarrow> real \<Rightarrow> Vector" where
  "SolvePrec t b prec = SolveStoppable t b prec NilChan"

definition Solve :: "LinTran \<Rightarrow> Vector \<Rightarrow> Vector" where
  "Solve t b = SolvePrec t b 0"

text \<open>
  The variables each time control is at the head of the loop, before \<open>i < t.Dim()\<close>
  is tested: first the initial ones with \<open>i = 0\<close>, then what each completed body leaves.
\<close>

inductive at_top :: "LinTran \<Rightarrow> Vector \<Rightarrow> real \<Rightarrow> Chan \<Rightarrow> nat \<Rightarrow> state \<Rightarrow> bool"
  for t b prec cancelChan where
  at_start: "at_top t b prec cancelChan 0 (init t b)"
| at_next: "at_top t b prec cancelChan i s \<Longrightarrow> i < Dim t \<Longrightarrow>
     body t b prec cancelChan i s = Inr s' \<Longrightarrow> at_top t b prec cancelChan (Suc i) s'"

text \<open>
  Modelled from the spec: a matrix as a linear operator (the spec's scenarios take
  \<open>T\<close> to be a matrix; the matrix type that implements \<open>LinTran\<close> is not part of
  the solver's file). The matrix is given by its rows, \<open>Dim\<close> is the number of rows,
  and row \<open>k\<close> of the result is the dot product of row \<open>k\<close> with the argument.
\<close>

definition matTran :: "real list list \<Rightarrow> LinTran" where
  "matTran m = \<lparr>Dim = length m, Apply = (\<lambda>v. map (\<lambda>row. Dot row v) m)\<rparr>"

definition identity2 :: LinTran where
  "identity2 = matTran [[1, 0], [0, 1]]"

text \<open>
  A second operator, the diagonal matrix with entries \<open>2\<close> and \<open>1\<close>, and the
  variables that one loop body leaves from the right-hand side \<open>[1, 1]\<close>.
\<close>

definition diag21 :: LinTran where
  "diag21 = matTran [[2, 0], [0, 1]]"

definition after_first :: state where
  "after_first = \<lparr>conjVec = [1, 1], residual = [- (1 / 3), 1 / 3],
     solution = [2 / 3, 2 / 3], lastResidualDot = 2\<rparr>"


text \<open>
  The inputs the operator's contract allows: \<open>b\<close> has \<open>t.Dim()\<close> entries and
  \<open>Apply\<close> maps a vector of that length to a vector of that length.
\<close>

definition wellFormed :: "LinTran \<Rightarrow> Vector \<Rightarrow> bool" where
  "wellFormed t b \<longleftrightarrow>
     length b = Dim t \<and> (\<forall>v. length v = Dim t \<longrightarrow> length (Apply t v) = Dim t)"

text \<open>A linear operator: \<open>Apply\<close> commutes with \<open>Add\<close> and \<open>Scale\<close>.\<close>

definition linearOp :: "LinTran \<Rightarrow> bool" where
  "linearOp t \<longleftrightarrow>
     (\<forall>u v. length u = Dim t \<and> length v = Dim t \<longrightarrow>
        Apply t (Add u v) = Add (Apply t u) (Apply t v)) \<and>
     (\<forall>v a. length v = Dim t \<longrightarrow> Apply t (Scale v a) = Scale (Apply t v) a)"

text \<open>All live vectors have \<open>n\<close> entries (the direction from the first body on).\<close>

definition sized :: "nat \<Rightarrow> nat \<Rightarrow> state \<Rightarrow> bool" where
  "sized n i s \<longleftrightarrow>
     length (residual s) = n \<and> length (solution s) = n \<and> (0 < i \<longrightarrow> length (conjVec s) = n)"

text \<open>The invariant of the loop head: the residual is \<open>b - T \<cdot> solution\<close>.\<close>

definition consistent :: "LinTran \<Rightarrow> Vector \<Rightarrow> state \<Rightarrow> bool" where
  "consistent t b s \<longleftrightarrow> residual s = map2 (\<lambda>y x. y - x) b (Apply t (solution s))"

section \<open>The same code on float64 values\<close>

text \<open>
  What the code does where floating-point arithmetic leaves the reals (a division by
  zero, an underflow, an overflow, a not-a-number value) is read off a second embedding of
  the same lines, over a model of Go's \<open>float64\<close>: IEEE 754 binary64 with rounding to
  nearest, ties to even. Its definitions carry the suffix \<open>64\<close>.
\<close>

subsection \<open>The values and the arithmetic\<close>

text \<open>
  A \<open>float64\<close> is a finite value (\<open>Fin 0\<close> is the zero with the sign bit clear,
  \<open>NegZero\<close> the zero with the sign bit set), an infinity or a not-a-number value.
  Every operation rounds its result, so it does not matter to the operations whether the
  real number under \<open>Fin\<close> has a binary64 representation.
\<close>

datatype float64 = Fin real | NegZero | PInf | NInf | NaN

fun isNaN :: "float64 \<Rightarrow> bool" where
  "isNaN NaN = True"
| "isNaN f = False"

fun isInf :: "float64 \<Rightarrow> bool" where
  "isInf PInf = True"
| "isInf NInf = True"
| "isInf f = False"

text \<open>\<open>x == 0\<close> in Go: true of both zeros, false of a not-a-number value.\<close>

definition isZero :: "float64 \<Rightarrow> bool" where
  "isZero f \<longleftrightarrow> f = Fin 0 \<or> f = NegZero"

definition nonFinite :: "float64 \<Rightarrow> bool" where
  "nonFinite f \<longleftrightarrow> isInf f \<or> isNaN f"

fun signBit :: "float64 \<Rightarrow> bool" where
  "signBit (Fin x) = (x < 0)"
| "signBit NegZero = True"
| "signBit PInf = False"
| "signBit NInf = True"
| "signBit NaN = False"

fun val :: "float64 \<Rightarrow> real" where
  "val (Fin x) = x"
| "val f = 0"

definition mkInf :: "bool \<Rightarrow> float64" where
  "mkInf s = (if s then NInf else PInf)"

definition mkZero :: "bool \<Rightarrow> float64" where
  "mkZero s = (if s then NegZero else Fin 0)"

text \<open>
  Rounding to nearest, ties to even: the result is a multiple of \<open>2\<^sup>e\<close>, where
  \<open>e\<close> leaves 53 significant bits and is at least \<open>-1074\<close> (the subnormal
  range); a result beyond the largest finite value becomes an infinity, a result zero
  keeps the sign of the exact value.
\<close>

definition roundHalfEven :: "real \<Rightarrow> int" where
  "roundHalfEven q =
     (let f = \<lfloor>q\<rfloor>
      in if q - of_int f < 1 / 2 then f
         else if 1 / 2 < q - of_int f then f + 1
         else if even f then f else f + 1)"

definition round64 :: "real \<Rightarrow> real" where
  "round64 v =
     (if v = 0 then 0
      else
        (let e = max (\<lfloor>log 2 \<bar>v\<bar>\<rfloor> - 52) (- 1074)
         in of_int (roundHalfEven (v / 2 powi e)) * 2 powi e))"

definition maxFloat :: real where
  "maxFloat = (2 ^ 53 - 1) * 2 ^ 971"

definition finish :: "bool \<Rightarrow> real \<Rightarrow> float64" where
  "finish s v =
     (let r = round64 v
      in if r = 0 then mkZero s
         else if maxFloat < \<bar>r\<bar> then mkInf s
         else Fin r)"

text \<open>\<open>a * b\<close>: zero times infinity is not a number.\<close>

definition fmul :: "float64 \<Rightarrow> float64 \<Rightarrow> float64" where
  "fmul a b =
     (if isNaN a \<or> isNaN b then NaN
      else if isInf a \<or> isInf b then
        (if isZero a \<or> isZero b then NaN else mkInf (signBit a \<noteq> signBit b))
      else finish (signBit a \<noteq> signBit b) (val a * val b))"

text \<open>
  \<open>a / b\<close>: a division by zero does not trap; it gives an infinity, or a not-a-number
  value when the dividend is zero too.
\<close>

definition fdiv :: "float64 \<Rightarrow> float64 \<Rightarrow> float64" where
  "fdiv a b =
     (if isNaN a \<or> isNaN b then NaN
      else if isInf a then (if isInf b then NaN else mkInf (signBit a \<noteq> signBit b))
      else if isInf b then mkZero (signBit a \<noteq> signBit b)
      else if isZero b then (if isZero a then NaN else mkInf (signBit a \<noteq> signBit b))
      else finish (signBit a \<noteq> signBit b) (val a / val b))"

text \<open>\<open>a + b\<close>: infinities of opposite sign add to a not-a-number value.\<close>

definition fadd :: "float64 \<Rightarrow> float64 \<Rightarrow> float64" where
  "fadd a b =
     (if isNaN a \<or> isNaN b then NaN
      else if isInf a then (if isInf b \<and> a \<noteq> b then NaN else a)
      else if isInf b then b
      else
        (let v = val a + val b
         in if v = 0 then mkZero (signBit a \<and> signBit b) else finish (v < 0) v))"

text \<open>\<open>-a\<close> flips the sign bit.\<close>

fun fneg :: "float64 \<Rightarrow> float64" where
  "fneg (Fin x) = (if x = 0 then NegZero else Fin (- x))"
| "fneg NegZero = Fin 0"
| "fneg PInf = NInf"
| "fneg NInf = PInf"
| "fneg NaN = NaN"

text \<open>\<open>math.Abs\<close> clears the sign bit.\<close>

fun fabs :: "float64 \<Rightarrow> float64" where
  "fabs (Fin x) = Fin \<bar>x\<bar>"
| "fabs NegZero = Fin 0"
| "fabs PInf = PInf"
| "fabs NInf = PInf"
| "fabs NaN = NaN"

text \<open>\<open>a <= b\<close> and \<open>a > b\<close>: false as soon as one side is not a number.\<close>

definition fle :: "float64 \<Rightarrow> float64 \<Rightarrow> bool" where
  "fle a b =
     (if isNaN a \<or> isNaN b then False
      else if a = NInf \<or> b = PInf then True
      else if a = PInf \<or> b = NInf then False
      else val a \<le> val b)"

definition fgt :: "float64 \<Rightarrow> float64 \<Rightarrow> bool" where
  "fgt a b \<longleftrightarrow> fle b a \<and> \<not> fle a b"

text \<open>
  \<open>math.Max\<close>, with the special cases of the Go library in their order: a positive
  infinity wins, then a not-a-number value, then of two zeros the one with the sign bit
  clear.
\<close>

definition fmax :: "float64 \<Rightarrow> float64 \<Rightarrow> float64" where
  "fmax x y =
     (if x = PInf \<or> y = PInf then PInf
      else if isNaN x \<or> isNaN y then NaN
      else if isZero x \<and> isZero y then (if signBit x then y else x)
      else if fgt x y then x else y)"

subsection \<open>The vector primitives on float64\<close>

type_synonym Vector64 = "float64 list"

text \<open>Modelled from the spec: \<open>Vector.Copy\<close> of the absent package \<open>linalg\<close>.\<close>

definition Copy64 :: "Vector64 \<Rightarrow> Vector64" where
  "Copy64 v = v"

text \<open>Modelled from the spec: \<open>Vector.Scale\<close> of the absent package \<open>linalg\<close>,
  every entry multiplied by the scalar.\<close>

definition Scale64 :: "Vector64 \<Rightarrow> float64 \<Rightarrow> Vector64" where
  "Scale64 v s = map (\<lambda>x. fmul x s) v"

text \<open>Modelled from the spec: \<open>Vector.Add\<close> of the absent package \<open>linalg\<close>,
  the element-wise sum.\<close>

definition Add64 :: "Vector64 \<Rightarrow> Vector64 \<Rightarrow> Vector64" where
  "Add64 v v1 = map2 (\<lambda>x y. fadd x y) v v1"

text \<open>Modelled from the spec: \<open>Vector.Dot\<close> of the absent package \<open>linalg\<close>,
  the products added one after the other to a sum that starts at zero, each product and
  each partial sum rounded.\<close>

fun dotFrom :: "float64 \<Rightarrow> Vector64 \<Rightarrow> Vector64 \<Rightarrow> float64" where
  "dotFrom res (x # v) (y # v1) = dotFrom (fadd res (fmul x y)) v v1"
| "dotFrom res v v1 = res"

definition Dot64 :: "Vector64 \<Rightarrow> Vector64 \<Rightarrow> float64" where
  "Dot64 v v1 = dotFrom (Fin 0) v v1"

definition makeVector64 :: "nat \<Rightarrow> Vector64" where
  "makeVector64 n = replicate n (Fin 0)"

subsection \<open>The solver on float64\<close>

record LinTran64 =
  Dim64 :: nat
  Apply64 :: "Vector64 \<Rightarrow> Vector64"

fun allZero64 :: "Vector64 \<Rightarrow> bool" where
  "allZero64 [] = True"
| "allZero64 (x # v) = (if \<not> isZero x then False else allZero64 v)"

fun greatestFrom64 :: "float64 \<Rightarrow> Vector64 \<Rightarrow> float64" where
  "greatestFrom64 m [] = m"
| "greatestFrom64 m (x # v) = greatestFrom64 (fmax m (fabs x)) v"

definition greatestValue64 :: "Vector64 \<Rightarrow> float64" where
  "greatestValue64 v = greatestFrom64 (Fin 0) v"

record state64 =
  conjVec64 :: Vector64
  residual64 :: Vector64
  solution64 :: Vector64
  lastResidualDot64 :: float64

definition init64 :: "LinTran64 \<Rightarrow> Vector64 \<Rightarrow> state64" where
  "init64 t b = \<lparr>conjVec64 = [], residual64 = Copy64 b, solution64 = makeVector64 (Dim64 t),
     lastResidualDot64 = Fin 0\<rparr>"

definition direction64 :: "nat \<Rightarrow> state64 \<Rightarrow> state64" where
  "direction64 i s =
     (if i = 0 then
        (let cv = Copy64 (residual64 s)
         in s\<lparr>conjVec64 := cv, lastResidualDot64 := Dot64 cv cv\<rparr>)
      else
        (let residualDot = Dot64 (residual64 s) (residual64 s);
             projAmount = fdiv (fneg residualDot) (lastResidualDot64 s)
         in s\<lparr>lastResidualDot64 := residualDot,
               conjVec64 :=
                 Add64 (Copy64 (residual64 s)) (Scale64 (conjVec64 s) (fneg projAmount))\<rparr>))"

definition optimalDistance64 :: "LinTran64 \<Rightarrow> state64 \<Rightarrow> float64" where
  "optimalDistance64 t s =
     fdiv (Dot64 (conjVec64 s) (residual64 s)) (Dot64 (conjVec64 s) (Apply64 t (conjVec64 s)))"

definition advance64 :: "LinTran64 \<Rightarrow> Vector64 \<Rightarrow> nat \<Rightarrow> state64 \<Rightarrow> state64" where
  "advance64 t b i s =
     (let od = optimalDistance64 t s;
          sol = Add64 (solution64 s) (Scale64 (Copy64 (conjVec64 s)) od)
      in if i \<noteq> 0 \<and> i mod residualUpdateFrequency = 0
         then s\<lparr>solution64 := sol,
                 residual64 := Add64 (Scale64 (Apply64 t sol) (Fin (- 1))) b\<rparr>
         else s\<lparr>solution64 := sol,
                 residual64 :=
                   Add64 (residual64 s) (Scale64 (Apply64 t (conjVec64 s)) (fneg od))\<rparr>)"

definition body64 :: "LinTran64 \<Rightarrow> Vector64 \<Rightarrow> float64 \<Rightarrow> Chan \<Rightarrow> nat \<Rightarrow> state64 \<Rightarrow> (exit \<times> state64) + state64" where
  "body64 t b prec cancelChan i s =
     (if fle (greatestValue64 (residual64 s)) prec then Inl (Converged, s)
      else
        (let s1 = direction64 i s
         in if allZero64 (conjVec64 s1) then Inl (Degenerate, s1)
            else
              (let s2 = advance64 t b i s1
               in if poll cancelChan i then Inl (Cancelled, s2) else Inr s2)))"

function loop64 :: "LinTran64 \<Rightarrow> Vector64 \<Rightarrow> float64 \<Rightarrow> Chan \<Rightarrow> nat \<Rightarrow> state64 \<Rightarrow> exit \<times> nat \<times> state64" where
  "loop64 t b prec cancelChan i s =
     (if i < Dim64 t then
        (case body64 t b prec cancelChan i s of
           Inl r \<Rightarrow> (fst r, i, snd r)
         | Inr s' \<Rightarrow> loop64 t b prec cancelChan (i + 1) s')
      else (CapReached, i, s))"
  by pat_completeness auto
termination
  by (relation "measure (\<lambda>(t, b, prec, cancelChan, i, s). Dim64 t - i)") auto

definition SolveStoppable64 :: "LinTran64 \<Rightarrow> Vector64 \<Rightarrow> float64 \<Rightarrow> Chan \<Rightarrow> Vector64" where
  "SolveStoppable64 t b prec cancelChan =
     solution64 (snd (snd (loop64 t b prec cancelChan 0 (init64 t b))))"

inductive at_top64 :: "LinTran64 \<Rightarrow> Vector64 \<Rightarrow> float64 \<Rightarrow> Chan \<Rightarrow> nat \<Rightarrow> state64 \<Rightarrow> bool"
  for t b prec cancelChan where
  at_start64: "at_top64 t b prec cancelChan 0 (init64 t b)"
| at_next64: "at_top64 t b prec cancelChan i s \<Longrightarrow> i < Dim64 t \<Longrightarrow>
     body64 t b prec cancelChan i s = Inr s' \<Longrightarrow> at_top64 t b prec cancelChan (Suc i) s'"

definition wellFormed64 :: "LinTran64 \<Rightarrow> Vector64 \<Rightarrow> bool" where
  "wellFormed64 t b \<longleftrightarrow>
     length b = Dim64 t \<and> (\<forall>v. length v = Dim64 t \<longrightarrow> length (Apply64 t v) = Dim64 t)"

definition sized64 :: "nat \<Rightarrow> nat \<Rightarrow> state64 \<Rightarrow> bool" where
  "sized64 n i s \<longleftrightarrow>
     length (residual64 s) = n \<and> length (solution64 s) = n \<and>
     (0 < i \<longrightarrow> length (conjVec64 s) = n)"

text \<open>
  Two operators of dimension \<open>n\<close>: the identity, which returns a copy of its argument,
  and the zero operator (symmetric and positive semidefinite, not definite). And a small
  entry: \<open>2 powi (- 600)\<close> is a binary64 value, and its square is below half of the
  least positive binary64 value \<open>2 powi (- 1074)\<close>.
\<close>

definition copyTran :: "nat \<Rightarrow> LinTran64" where
  "copyTran n = \<lparr>Dim64 = n, Apply64 = (\<lambda>v. Copy64 v)\<rparr>"

definition zeroTran :: "nat \<Rightarrow> LinTran64" where
  "zeroTran n = \<lparr>Dim64 = n, Apply64 = (\<lambda>v. makeVector64 n)\<rparr>"

definition tiny :: real where
  "tiny = 2 powi (- 600)"

section \<open>Basic facts\<close>

declare loop.simps [simp del]

declare loop64.simps [simp del]

lemmas vector_defs = Copy_def Scale_def Add_def Dot_def makeVector_def

lemmas step_defs = body_def direction_def advance_def optimalDistance_def
  residualUpdateFrequency_def greatestValue_def Let_def

lemma Dim_matTran: "Dim (matTran m) = length m"
  by (simp add: matTran_def)


lemma Dim_identity2: "Dim identity2 = 2"
  by (simp add: identity2_def Dim_matTran)

lemma Dim_diag21: "Dim diag21 = 2"
  by (simp add: diag21_def Dim_matTran)

lemma body_identity2_first:
  "body identity2 [3, 4] 0 NilChan 0 (init identity2 [3, 4]) =
     Inr \<lparr>conjVec = [3, 4], residual = [0, 0], solution = [3, 4], lastResidualDot = 25\<rparr>"
  by (simp add: step_defs vector_defs init_def identity2_def matTran_def)

lemma body_identity2_second:
  "body identity2 [3, 4] 0 NilChan (Suc 0)
     \<lparr>conjVec = [3, 4], residual = [0, 0], solution = [3, 4], lastResidualDot = 25\<rparr> =
   Inl (Converged,
     \<lparr>conjVec = [3, 4], residual = [0, 0], solution = [3, 4], lastResidualDot = 25\<rparr>)"
  by (simp add: body_def greatestValue_def)

lemma loop_identity2:
  "loop identity2 [3, 4] 0 NilChan 0 (init identity2 [3, 4]) =
     (Converged, 1,
      \<lparr>conjVec = [3, 4], residual = [0, 0], solution = [3, 4], lastResidualDot = 25\<rparr>)"
  by (simp add: loop.simps [of identity2] body_identity2_first body_identity2_second
      Dim_identity2)

lemma body_diag21_first:
  "body diag21 [1, 1] 0 NilChan 0 (init diag21 [1, 1]) = Inr after_first"
  by (simp add: step_defs vector_defs init_def diag21_def matTran_def after_first_def)

lemma at_top_after_first: "at_top diag21 [1, 1] 0 NilChan (Suc 0) after_first"
  by (rule at_next [OF at_start _ body_diag21_first]) (simp add: Dim_diag21)

lemma greatestFrom_allZero: "allZero v \<Longrightarrow> 0 \<le> m \<Longrightarrow> greatestFrom m v = m"
  by (induction v arbitrary: m) (auto split: if_splits)

lemma greatestValue_allZero: "allZero v \<Longrightarrow> greatestValue v = 0"
  by (simp add: greatestValue_def greatestFrom_allZero)


lemma Dot_self_nonneg: "0 \<le> Dot v v"
  by (induction v) (auto simp: Dot_def)

lemma Dot_self_pos: "\<not> allZero v \<Longrightarrow> 0 < Dot v v"
proof (induction v)
  case Nil
  then show ?case by simp
next
  case (Cons x v)
  have d: "Dot (x # v) (x # v) = x * x + Dot v v" by (simp add: Dot_def)
  show ?case
  proof (cases "x = 0")
    case True
    with Cons have "0 < Dot v v" by simp
    then show ?thesis unfolding d using True by simp
  next
    case False
    then have "0 < x * x" by (auto simp: zero_less_mult_iff)
    with Dot_self_nonneg [of v] show ?thesis by (simp add: d add_pos_nonneg)
  qed
qed

lemma not_converged_not_allZero:
  "0 \<le> prec \<Longrightarrow> \<not> greatestValue r \<le> prec \<Longrightarrow> \<not> allZero r"
  using greatestValue_allZero [of r] by auto

lemma loop_step: "i < Dim t \<Longrightarrow> body t b prec c i s = Inr s' \<Longrightarrow>
  loop t b prec c i s = loop t b prec c (Suc i) s'"
  by (subst loop.simps) simp

lemma loop_exit: "i < Dim t \<Longrightarrow> body t b prec c i s = Inl r \<Longrightarrow>
  loop t b prec c i s = (fst r, i, snd r)"
  by (subst loop.simps) simp

lemma loop_cap: "\<not> i < Dim t \<Longrightarrow> loop t b prec c i s = (CapReached, i, s)"
  by (subst loop.simps) simp


lemma at_top_le: "at_top t b prec c i s \<Longrightarrow> i \<le> Dim t"
  by (induction rule: at_top.induct) simp_all




lemma body_cong_poll: "poll c i = poll c' i \<Longrightarrow> body t b prec c i s = body t b prec c' i s"
  by (simp add: body_def Let_def)

lemma loop_cong_poll:
  "(\<And>j. poll c j = poll c' j) \<Longrightarrow> loop t b prec c i s = loop t b prec c' i s"
proof (induction t b prec c i s rule: loop.induct)
  case (1 t b prec c i s)
  show ?case
  proof (cases "i < Dim t")
    case False
    then show ?thesis by (simp add: loop_cap)
  next
    case True
    have bd: "body t b prec c i s = body t b prec c' i s"
      by (rule body_cong_poll) (rule 1)
    show ?thesis
    proof (cases "body t b prec c i s")
      case (Inl r)
      with bd have "body t b prec c' i s = Inl r" by simp
      with True Inl show ?thesis by (simp add: loop_exit)
    next
      case (Inr s')
      have "loop t b prec c (i + 1) s' = loop t b prec c' (i + 1) s'"
        using 1 True Inr by simp
      moreover from bd Inr have "body t b prec c' i s = Inr s'" by simp
      ultimately show ?thesis using True Inr by (simp add: loop_step)
    qed
  qed
qed


lemma map2_map_left: "map2 f (map g u) v = map2 (\<lambda>x y. f (g x) y) u v"
  by (induction u arbitrary: v) (auto split: list.splits simp: zip_Cons1)


lemma map2_flip: "map2 f u v = map2 (\<lambda>y x. f x y) v u"
proof (induction u arbitrary: v)
  case Nil
  show ?case by simp
next
  case (Cons x u)
  show ?case by (cases v) (simp_all add: Cons.IH)
qed

lemma Add_Scale_neg: "Add (Scale u (- 1)) b = map2 (\<lambda>y x. y - x) b u"
proof -
  have "Add (Scale u (- 1)) b = map2 (\<lambda>x y. x * (- 1) + y) u b"
    by (simp add: Add_def Scale_def map2_map_left)
  also have "\<dots> = map2 (\<lambda>y x. x * (- 1) + y) b u"
    by (rule map2_flip)
  finally show ?thesis by simp
qed



lemma length_Add [simp]: "length (Add u v) = min (length u) (length v)"
  by (simp add: Add_def)

lemma length_Scale [simp]: "length (Scale v a) = length v"
  by (simp add: Scale_def)

lemma nth_Add: "j < length u \<Longrightarrow> j < length v \<Longrightarrow> Add u v ! j = u ! j + v ! j"
  by (simp add: Add_def)

lemma nth_Scale: "j < length v \<Longrightarrow> Scale v a ! j = v ! j * a"
  by (simp add: Scale_def)

lemma body_Inr:
  "body t b prec c i s = Inr s' \<longleftrightarrow>
     \<not> greatestValue (residual s) \<le> prec \<and> \<not> allZero (conjVec (direction i s)) \<and>
     \<not> poll c i \<and> s' = advance t b i (direction i s)"
  by (auto simp: body_def Let_def)

lemma body_Inl:
  "body t b prec c i s = Inl (e, s') \<longleftrightarrow>
     (e = Converged \<and> greatestValue (residual s) \<le> prec \<and> s' = s) \<or>
     (e = Degenerate \<and> \<not> greatestValue (residual s) \<le> prec \<and>
        allZero (conjVec (direction i s)) \<and> s' = direction i s) \<or>
     (e = Cancelled \<and> \<not> greatestValue (residual s) \<le> prec \<and>
        \<not> allZero (conjVec (direction i s)) \<and> poll c i \<and> s' = advance t b i (direction i s))"
  by (auto simp: body_def Let_def)

lemma sized_init: "length b = Dim t \<Longrightarrow> sized (Dim t) 0 (init t b)"
  by (simp add: sized_def init_def Copy_def makeVector_def)

lemma sized_direction: "sized n i s \<Longrightarrow> sized n (Suc i) (direction i s)"
  by (auto simp: sized_def direction_def Let_def Copy_def)

lemma sized_advance:
  assumes "wellFormed t b" "sized (Dim t) (Suc i) s"
  shows "sized (Dim t) (Suc j) (advance t b i s)"
  using assms by (auto simp: sized_def advance_def Let_def Copy_def wellFormed_def)

lemma sized_at_top:
  assumes w: "wellFormed t b"
  shows "at_top t b prec c i s \<Longrightarrow> sized (Dim t) i s"
proof (induction rule: at_top.induct)
  case at_start
  from w show ?case by (simp add: sized_init wellFormed_def)
next
  case (at_next i s s')
  then have "s' = advance t b i (direction i s)" by (simp add: body_Inr)
  with at_next w show ?case by (simp add: sized_advance sized_direction)
qed

lemma loop_from_top:
  "at_top t b prec c i s \<Longrightarrow> loop t b prec c i s = (e, k, s') \<Longrightarrow>
     (e = CapReached \<and> k = Dim t \<and> at_top t b prec c k s') \<or>
     (e \<noteq> CapReached \<and> k < Dim t \<and>
        (\<exists>s0. at_top t b prec c k s0 \<and> body t b prec c k s0 = Inl (e, s')))"
proof (induction "Dim t - i" arbitrary: i s)
  case 0
  then have "i = Dim t" using at_top_le [of t b prec c i s] by simp
  with 0 show ?case by (simp add: loop_cap)
next
  case (Suc n)
  then have lt: "i < Dim t" by simp
  show ?case
  proof (cases "body t b prec c i s")
    case (Inl r)
    with lt Suc.prems have r: "r = (e, s')" "k = i"
      by (auto simp: loop_exit)
    with Inl have "e \<noteq> CapReached" by (auto simp: body_Inl)
    with r Inl lt Suc.prems show ?thesis by auto
  next
    case (Inr s1)
    with lt Suc.prems have a: "at_top t b prec c (Suc i) s1" by (auto intro: at_next)
    from Inr lt Suc.prems have l: "loop t b prec c (Suc i) s1 = (e, k, s')"
      by (simp add: loop_step)
    from Suc.hyps(2) have "n = Dim t - Suc i" by simp
    from Suc.hyps(1) [OF this a l] show ?thesis .
  qed
qed

lemma Scale_zero_replicate: "Scale (replicate n 0) a = replicate n 0"
  by (simp add: Scale_def)

lemma linear_zero:
  assumes "linearOp t" "wellFormed t b"
  shows "Apply t (replicate (Dim t) 0) = replicate (Dim t) 0"
proof -
  let ?z = "replicate (Dim t) (0::real)"
  have len: "length (Apply t ?z) = Dim t"
    using assms(2) by (simp add: wellFormed_def)
  have "Apply t ?z = Apply t (Scale ?z 0)" by (simp add: Scale_zero_replicate)
  also have "\<dots> = Scale (Apply t ?z) 0"
    using assms(1) by (simp add: linearOp_def)
  also have "\<dots> = ?z"
    using len by (simp add: Scale_def map_replicate_const)
  finally show ?thesis .
qed

lemma sub_replicate_zero: "length b = n \<Longrightarrow> map2 (\<lambda>y x. y - x) b (replicate n (0::real)) = b"
  by (simp add: list_eq_iff_nth_eq)

lemma consistent_init:
  assumes "linearOp t" "wellFormed t b"
  shows "consistent t b (init t b)"
  using assms linear_zero [OF assms]
  by (simp add: consistent_def init_def Copy_def makeVector_def sub_replicate_zero wellFormed_def)

lemma consistent_direction: "consistent t b (direction i s) = consistent t b s"
  by (simp add: consistent_def direction_def Let_def)

lemma incremental_update:
  assumes lin: "linearOp t" and w: "wellFormed t b"
    and lx: "length x = Dim t" and ld: "length d = Dim t"
  shows "Add (map2 (\<lambda>y x. y - x) b (Apply t x)) (Scale (Apply t d) (- a)) =
     map2 (\<lambda>y x. y - x) b (Apply t (Add x (Scale d a)))"
proof -
  have lb: "length b = Dim t" and lTx: "length (Apply t x) = Dim t"
    and lTd: "length (Apply t d) = Dim t"
    using w lx ld by (simp_all add: wellFormed_def)
  have T: "Apply t (Add x (Scale d a)) = Add (Apply t x) (Scale (Apply t d) a)"
    using lin lx ld by (simp add: linearOp_def)
  show ?thesis
    unfolding T by (simp add: list_eq_iff_nth_eq lb lTx lTd nth_Add nth_Scale)
qed

lemma consistent_advance:
  assumes lin: "linearOp t" and w: "wellFormed t b"
    and z: "sized (Dim t) (Suc i) s" and c: "consistent t b s"
  shows "consistent t b (advance t b i s)"
proof (cases "i \<noteq> 0 \<and> i mod residualUpdateFrequency = 0")
  case True
  then show ?thesis
    by (simp add: consistent_def advance_def Let_def Add_Scale_neg)
next
  case False
  from z have lx: "length (solution s) = Dim t" and ld: "length (conjVec s) = Dim t"
    by (simp_all add: sized_def)
  from False c incremental_update [OF lin w lx ld, of "optimalDistance t s"]
  show ?thesis
    by (simp add: consistent_def advance_def Let_def Copy_def Add_Scale_neg)
qed

lemma consistent_recomputed:
  "i \<noteq> 0 \<and> i mod residualUpdateFrequency = 0 \<Longrightarrow> consistent t b (advance t b i s)"
  by (simp add: consistent_def advance_def Let_def Add_Scale_neg)

lemma consistent_at_top:
  assumes lin: "linearOp t" and w: "wellFormed t b"
  shows "at_top t b prec c i s \<Longrightarrow> consistent t b s"
proof (induction rule: at_top.induct)
  case at_start
  from consistent_init [OF lin w] show ?case .
next
  case (at_next i s s')
  then have s': "s' = advance t b i (direction i s)" by (simp add: body_Inr)
  from at_next have "consistent t b (direction i s)"
    by (simp add: consistent_direction)
  with sized_direction [OF sized_at_top [OF w at_next(1)]] have "consistent t b s'"
    unfolding s' by (rule consistent_advance [OF lin w])
  then show ?case .
qed


lemma linearOp_diag21: "linearOp diag21"
  by (auto simp: linearOp_def diag21_def matTran_def numeral_2_eq_2 length_Suc_conv vector_defs algebra_simps)

lemma wellFormed_diag21: "wellFormed diag21 [1, 1]"
  by (simp add: wellFormed_def diag21_def matTran_def)

section \<open>Facts about the float64 embedding\<close>

subsection \<open>Rounding\<close>

lemma roundHalfEven_small: "0 \<le> q \<Longrightarrow> q < 1 / 2 \<Longrightarrow> roundHalfEven q = 0"
proof -
  assume q: "0 \<le> q" "q < 1 / 2"
  then have "\<lfloor>q\<rfloor> = 0" by (simp add: floor_eq_iff)
  with q show ?thesis by (simp add: roundHalfEven_def)
qed

lemma floor_log2_less: "0 < v \<Longrightarrow> v < 2 powi m \<Longrightarrow> \<lfloor>log 2 v\<rfloor> < m"
proof -
  assume v: "0 < v" "v < 2 powi m"
  then have "v < 2 powr (of_int m)" by (simp add: powr_real_of_int')
  with v(1) have "log 2 v < of_int m" by (simp add: log_less_iff)
  then show ?thesis by (simp add: floor_less_iff)
qed

lemma below_half_unit:
  assumes "0 < v" "v < 2 powi (k - 1)"
  shows "roundHalfEven (v / 2 powi k) = 0"
proof -
  have "(2::real) powi (k - 1) = 2 powi k / 2 powi 1" by (rule power_int_diff) simp
  then have h: "(2::real) powi (k - 1) = 2 powi k / 2" by simp
  have p: "(0::real) < 2 powi k" by (rule zero_less_power_int) simp
  have "v / 2 powi k < 1 / 2"
    using assms(2) p unfolding h by (simp add: field_simps)
  moreover have "0 \<le> v / 2 powi k"
    using assms(1) p by simp
  ultimately show ?thesis by (rule roundHalfEven_small [rotated])
qed

lemma round64_underflow:
  assumes "0 < v" "v < 2 powi (- 1075)"
  shows "round64 v = 0"
proof -
  have "\<lfloor>log 2 v\<rfloor> < - 1075"
    using assms by (rule floor_log2_less)
  then have "\<lfloor>log 2 v\<rfloor> - 52 \<le> - 1074" by linarith
  then have "max (\<lfloor>log 2 v\<rfloor> - 52) (- 1074) = - 1074" by (rule max_absorb2)
  then have e: "max (\<lfloor>log 2 \<bar>v\<bar>\<rfloor> - 52) (- 1074) = - 1074"
    using assms(1) by (simp only: abs_of_pos)
  have "- 1074 - 1 = (- 1075 :: int)" by simp
  with assms(2) have "v < 2 powi (- 1074 - 1)" by metis
  with assms(1) have "roundHalfEven (v / 2 powi (- 1074)) = 0"
    by (rule below_half_unit)
  then show ?thesis
    unfolding round64_def Let_def e using assms(1) by simp
qed

lemma tiny_pos: "0 < tiny"
  unfolding tiny_def by (rule zero_less_power_int) simp

lemma round64_tiny_square: "round64 (tiny * tiny) = 0"
proof (rule round64_underflow)
  show "0 < tiny * tiny" using tiny_pos by simp
  have "tiny * tiny = 2 powi (- 600 + - 600)"
    unfolding tiny_def by (rule power_int_add [symmetric]) simp
  also have "\<dots> < 2 powi (- 1075)"
    by (rule power_int_strict_increasing) simp_all
  finally show "tiny * tiny < 2 powi (- 1075)" .
qed

lemma finish_zero: "finish s 0 = mkZero s"
  by (simp add: finish_def round64_def)

subsection \<open>Non-finite values absorb\<close>

lemma nonFinite_cases: "nonFinite f \<longleftrightarrow> f = PInf \<or> f = NInf \<or> f = NaN"
  by (cases f) (simp_all add: nonFinite_def)

lemma nonFinite_mkInf [simp]: "nonFinite (mkInf s)"
  by (simp add: mkInf_def nonFinite_def)

lemma nonFinite_NaN [simp]: "nonFinite NaN"
  by (simp add: nonFinite_def)

lemma nonFinite_not_zero: "nonFinite f \<Longrightarrow> \<not> isZero f"
  by (auto simp: nonFinite_cases isZero_def)

lemma nonFinite_fneg [simp]: "nonFinite (fneg f) = nonFinite f"
  by (cases f) (simp_all add: nonFinite_def)

lemma nonFinite_fmul_left: "nonFinite a \<Longrightarrow> nonFinite (fmul a b)"
  by (auto simp: nonFinite_cases fmul_def mkInf_def)

lemma nonFinite_fmul_right: "nonFinite b \<Longrightarrow> nonFinite (fmul a b)"
  by (auto simp: nonFinite_cases fmul_def mkInf_def)

lemma nonFinite_fadd_left: "nonFinite a \<Longrightarrow> nonFinite (fadd a b)"
  by (auto simp: nonFinite_cases fadd_def)

lemma nonFinite_fadd_right: "nonFinite b \<Longrightarrow> nonFinite (fadd a b)"
  by (cases a) (auto simp: nonFinite_cases fadd_def)

lemma nonFinite_fdiv_zero: "isZero b \<Longrightarrow> nonFinite (fdiv a b)"
  by (cases a) (auto simp: isZero_def fdiv_def mkInf_def nonFinite_def)

lemma fdiv_nonFinite_nonFinite: "nonFinite a \<Longrightarrow> nonFinite b \<Longrightarrow> fdiv a b = NaN"
  by (auto simp: nonFinite_cases fdiv_def)

lemma dotFrom_absorbs: "nonFinite res \<Longrightarrow> nonFinite (dotFrom res v v1)"
  by (induction res v v1 rule: dotFrom.induct) (simp_all add: nonFinite_fadd_left)

lemma Dot64_nonFinite:
  "list_all nonFinite v \<Longrightarrow> v \<noteq> [] \<Longrightarrow> v1 \<noteq> [] \<Longrightarrow> nonFinite (Dot64 v v1)"
  by (cases v; cases v1)
    (simp_all add: Dot64_def dotFrom_absorbs nonFinite_fadd_right nonFinite_fmul_left)

lemma Scale64_nonFinite: "nonFinite a \<Longrightarrow> list_all nonFinite (Scale64 v a)"
  by (simp add: Scale64_def list_all_iff nonFinite_fmul_right)

lemma Add64_nonFinite_right: "list_all nonFinite v1 \<Longrightarrow> list_all nonFinite (Add64 v v1)"
  by (auto simp: Add64_def list_all_iff nonFinite_fadd_right dest: set_zip_rightD)

lemma Add64_nonFinite_left: "list_all nonFinite v \<Longrightarrow> list_all nonFinite (Add64 v v1)"
  by (auto simp: Add64_def list_all_iff nonFinite_fadd_left dest: set_zip_leftD)

lemma allZero64_nonFinite: "list_all nonFinite v \<Longrightarrow> v \<noteq> [] \<Longrightarrow> \<not> allZero64 v"
  by (cases v) (simp_all add: nonFinite_not_zero)

lemma length_Add64 [simp]: "length (Add64 u v) = min (length u) (length v)"
  by (simp add: Add64_def)

lemma length_Scale64 [simp]: "length (Scale64 v a) = length v"
  by (simp add: Scale64_def)

subsection \<open>The float64 loop\<close>

lemma loop64_step: "i < Dim64 t \<Longrightarrow> body64 t b prec c i s = Inr s' \<Longrightarrow>
  loop64 t b prec c i s = loop64 t b prec c (Suc i) s'"
  by (subst loop64.simps) simp

lemma loop64_exit: "i < Dim64 t \<Longrightarrow> body64 t b prec c i s = Inl r \<Longrightarrow>
  loop64 t b prec c i s = (fst r, i, snd r)"
  by (subst loop64.simps) simp

lemma loop64_cap: "\<not> i < Dim64 t \<Longrightarrow> loop64 t b prec c i s = (CapReached, i, s)"
  by (subst loop64.simps) simp

lemma loop64_at_top:
  "at_top64 t b prec c i s \<Longrightarrow> loop64 t b prec c 0 (init64 t b) = loop64 t b prec c i s"
  by (induction rule: at_top64.induct) (simp_all add: loop64_step)

lemma body64_Inr:
  "body64 t b prec c i s = Inr s' \<longleftrightarrow>
     \<not> fle (greatestValue64 (residual64 s)) prec \<and> \<not> allZero64 (conjVec64 (direction64 i s)) \<and>
     \<not> poll c i \<and> s' = advance64 t b i (direction64 i s)"
  by (auto simp: body64_def Let_def)

lemma body64_Inl:
  "body64 t b prec c i s = Inl (e, s') \<longleftrightarrow>
     (e = Converged \<and> fle (greatestValue64 (residual64 s)) prec \<and> s' = s) \<or>
     (e = Degenerate \<and> \<not> fle (greatestValue64 (residual64 s)) prec \<and>
        allZero64 (conjVec64 (direction64 i s)) \<and> s' = direction64 i s) \<or>
     (e = Cancelled \<and> \<not> fle (greatestValue64 (residual64 s)) prec \<and>
        \<not> allZero64 (conjVec64 (direction64 i s)) \<and> poll c i \<and>
        s' = advance64 t b i (direction64 i s))"
  by (auto simp: body64_def Let_def)

lemma solution64_direction64 [simp]: "solution64 (direction64 i s) = solution64 s"
  by (simp add: direction64_def Let_def)

lemma residual64_direction64 [simp]: "residual64 (direction64 i s) = residual64 s"
  by (simp add: direction64_def Let_def)

lemma solution64_advance64:
  "solution64 (advance64 t b i s) =
     Add64 (solution64 s) (Scale64 (conjVec64 s) (optimalDistance64 t s))"
  by (simp add: advance64_def Let_def Copy64_def)

lemma lastResidualDot64_advance64 [simp]:
  "lastResidualDot64 (advance64 t b i s) = lastResidualDot64 s"
  by (simp add: advance64_def Let_def)

lemma sized64_init: "length b = Dim64 t \<Longrightarrow> sized64 (Dim64 t) 0 (init64 t b)"
  by (simp add: sized64_def init64_def Copy64_def makeVector64_def)

lemma sized64_direction: "sized64 n i s \<Longrightarrow> sized64 n (Suc i) (direction64 i s)"
  by (auto simp: sized64_def direction64_def Let_def Copy64_def)

lemma sized64_advance:
  assumes "wellFormed64 t b" "sized64 (Dim64 t) (Suc i) s"
  shows "sized64 (Dim64 t) (Suc j) (advance64 t b i s)"
  using assms by (auto simp: sized64_def advance64_def Let_def Copy64_def wellFormed64_def)

lemma sized64_at_top:
  assumes w: "wellFormed64 t b"
  shows "at_top64 t b prec c i s \<Longrightarrow> sized64 (Dim64 t) i s"
proof (induction rule: at_top64.induct)
  case at_start64
  from w show ?case by (simp add: sized64_init wellFormed64_def)
next
  case (at_next64 i s s')
  then have "s' = advance64 t b i (direction64 i s)" by (simp add: body64_Inr)
  with at_next64 w show ?case by (simp add: sized64_advance sized64_direction)
qed

text \<open>Once every entry of the solution is non-finite, it stays so to the end of the run,
  and the solution keeps its length.\<close>

lemma nonFinite_body64:
  assumes w: "wellFormed64 t b" and z: "sized64 (Dim64 t) i s"
    and sp: "list_all nonFinite (solution64 s)"
    and bd: "body64 t b prec c i s = Inr s' \<or> body64 t b prec c i s = Inl (e, s')"
  shows "length (solution64 s') = Dim64 t \<and> list_all nonFinite (solution64 s')"
proof -
  from bd consider "s' = s" | "s' = direction64 i s" | "s' = advance64 t b i (direction64 i s)"
    by (auto simp: body64_Inr body64_Inl)
  then show ?thesis
  proof cases
    case 1
    with z sp show ?thesis by (simp add: sized64_def)
  next
    case 2
    with z sp show ?thesis by (simp add: sized64_def)
  next
    case 3
    with sized64_advance [OF w sized64_direction [OF z], of i] sp show ?thesis
      by (simp add: solution64_advance64 Add64_nonFinite_left sized64_def)
  qed
qed

lemma nonFinite_loop64:
  "wellFormed64 t b \<Longrightarrow> sized64 (Dim64 t) i s \<Longrightarrow> list_all nonFinite (solution64 s) \<Longrightarrow>
     length (solution64 (snd (snd (loop64 t b prec c i s)))) = Dim64 t \<and>
     list_all nonFinite (solution64 (snd (snd (loop64 t b prec c i s))))"
proof (induction t b prec c i s rule: loop64.induct)
  case (1 t b prec c i s)
  note w = 1(2) and z = 1(3) and sp = 1(4)
  show ?case
  proof (cases "i < Dim64 t")
    case False
    with z sp show ?thesis by (simp add: loop64_cap sized64_def)
  next
    case True
    show ?thesis
    proof (cases "body64 t b prec c i s")
      case (Inl r)
      then have "body64 t b prec c i s = Inr (snd r) \<or> body64 t b prec c i s = Inl (fst r, snd r)"
        by simp
      from nonFinite_body64 [OF w z sp this] True Inl show ?thesis
        by (simp add: loop64_exit)
    next
      case (Inr s')
      then have s': "s' = advance64 t b i (direction64 i s)" by (simp add: body64_Inr)
      have z': "sized64 (Dim64 t) (i + 1) s'"
        unfolding s' using sized64_advance [OF w sized64_direction [OF z], of i] by simp
      from Inr have "body64 t b prec c i s = Inr s' \<or> body64 t b prec c i s = Inl (Converged, s')"
        by simp
      from nonFinite_body64 [OF w z sp this] have sp': "list_all nonFinite (solution64 s')"
        by simp
      from 1(1) [OF True Inr w z' sp'] True Inr show ?thesis by (simp add: loop64_step)
    qed
  qed
qed

text \<open>A non-finite step length makes every entry of the solution non-finite.\<close>

lemma nonFinite_step:
  assumes w: "wellFormed64 t b" and a: "at_top64 t b prec c i s" and i: "i < Dim64 t"
    and nc: "\<not> fle (greatestValue64 (residual64 s)) prec"
    and nz: "\<not> allZero64 (conjVec64 (direction64 i s))"
    and od: "nonFinite (optimalDistance64 t (direction64 i s))"
  shows "length (SolveStoppable64 t b prec c) = Dim64 t \<and>
     list_all nonFinite (SolveStoppable64 t b prec c)"
proof -
  let ?s2 = "advance64 t b i (direction64 i s)"
  from sized64_at_top [OF w a] have z: "sized64 (Dim64 t) i s" .
  have z2: "sized64 (Dim64 t) (Suc i) ?s2"
    using sized64_advance [OF w sized64_direction [OF z], of i] .
  have sp: "list_all nonFinite (solution64 ?s2)"
    using od by (simp add: solution64_advance64 Add64_nonFinite_right Scale64_nonFinite)
  have "length (solution64 (snd (snd (loop64 t b prec c i s)))) = Dim64 t \<and>
     list_all nonFinite (solution64 (snd (snd (loop64 t b prec c i s))))"
  proof (cases "poll c i")
    case True
    with nc nz have "body64 t b prec c i s = Inl (Cancelled, ?s2)" by (simp add: body64_Inl)
    with i have "loop64 t b prec c i s = (Cancelled, i, ?s2)" by (simp add: loop64_exit)
    with z2 sp show ?thesis by (simp add: sized64_def)
  next
    case False
    with nc nz have "body64 t b prec c i s = Inr ?s2" by (simp add: body64_Inr)
    with i have "loop64 t b prec c i s = loop64 t b prec c (Suc i) ?s2" by (rule loop64_step)
    with nonFinite_loop64 [OF w z2 sp, of prec c] show ?thesis by simp
  qed
  with loop64_at_top [OF a] show ?thesis by (simp add: SolveStoppable64_def)
qed

lemma zero_lastResidualDot_direction:
  assumes z: "sized64 n i s" and n: "0 < n" and i: "i \<noteq> 0"
    and l: "isZero (lastResidualDot64 s)"
  shows "nonFinite (fdiv (fneg (Dot64 (residual64 s) (residual64 s))) (lastResidualDot64 s))"
    and "list_all nonFinite (conjVec64 (direction64 i s))"
    and "length (conjVec64 (direction64 i s)) = n"
proof -
  show pa: "nonFinite (fdiv (fneg (Dot64 (residual64 s) (residual64 s))) (lastResidualDot64 s))"
    using l by (rule nonFinite_fdiv_zero)
  then show "list_all nonFinite (conjVec64 (direction64 i s))"
    using i by (simp add: direction64_def Let_def Add64_nonFinite_right Scale64_nonFinite)
  from sized64_direction [OF z] show "length (conjVec64 (direction64 i s)) = n"
    by (simp add: sized64_def)
qed

lemma nonFinite_direction_step:
  assumes w: "wellFormed64 t b" and z: "sized64 (Dim64 t) (Suc i) s1" and n: "0 < Dim64 t"
    and cv: "list_all nonFinite (conjVec64 s1)"
  shows "optimalDistance64 t s1 = NaN"
proof -
  from z have lc: "length (conjVec64 s1) = Dim64 t" and lr: "length (residual64 s1) = Dim64 t"
    by (simp_all add: sized64_def)
  with w have lt: "length (Apply64 t (conjVec64 s1)) = Dim64 t"
    by (simp add: wellFormed64_def)
  from lc lr lt n have ne: "conjVec64 s1 \<noteq> []" "residual64 s1 \<noteq> []" "Apply64 t (conjVec64 s1) \<noteq> []"
    by auto
  show ?thesis
    unfolding optimalDistance64_def
    by (rule fdiv_nonFinite_nonFinite) (rule Dot64_nonFinite [OF cv ne(1)], fact)+
qed


subsection \<open>The first direction on float64\<close>

lemma greatestFrom64_allZero: "allZero64 v \<Longrightarrow> greatestFrom64 (Fin 0) v = Fin 0"
proof (induction v)
  case Nil
  show ?case by simp
next
  case (Cons x v)
  then have "isZero x" "allZero64 v" by (simp_all split: if_splits)
  then have "fmax (Fin 0) (fabs x) = Fin 0"
    by (auto simp: isZero_def fmax_def)
  with Cons \<open>allZero64 v\<close> show ?case by simp
qed

lemma not_converged64_not_allZero:
  "fle (Fin 0) prec \<Longrightarrow> \<not> fle (greatestValue64 r) prec \<Longrightarrow> \<not> allZero64 r"
  using greatestFrom64_allZero [of r] by (auto simp: greatestValue64_def)

lemma first_direction64:
  assumes p: "fle (Fin 0) prec"
  shows "(\<forall>s'. body64 t b prec cancelChan 0 s \<noteq> Inl (Degenerate, s')) \<and>
     (\<not> fle (greatestValue64 (residual64 s)) prec \<longrightarrow>
        conjVec64 (direction64 0 s) = residual64 s \<and>
        \<not> allZero64 (conjVec64 (direction64 0 s)))"
proof -
  have dir: "conjVec64 (direction64 0 s) = residual64 s"
    by (simp add: direction64_def Let_def Copy64_def)
  have nz: "\<not> fle (greatestValue64 (residual64 s)) prec \<Longrightarrow> \<not> allZero64 (residual64 s)"
    using p by (rule not_converged64_not_allZero)
  show ?thesis
    using nz by (auto simp: body64_Inl dir)
qed

subsection \<open>Concrete runs\<close>

lemma tiny_facts [simp]: "tiny \<noteq> 0" "\<not> tiny < 0" "\<not> tiny \<le> 0" "\<bar>tiny\<bar> = tiny"
  using tiny_pos by simp_all

lemmas float_defs = fmul_def fadd_def fdiv_def finish_def mkZero_def mkInf_def isZero_def
  fle_def fgt_def fmax_def Dot64_def greatestValue64_def

lemmas step64_defs = body64_def direction64_def advance64_def optimalDistance64_def
  init64_def Copy64_def Scale64_def Add64_def makeVector64_def residualUpdateFrequency_def Let_def

lemma fmul_tiny_tiny: "fmul (Fin tiny) (Fin tiny) = Fin 0"
  by (simp add: fmul_def finish_def round64_tiny_square mkZero_def)

lemma fadd_zero_zero: "fadd (Fin 0) (Fin 0) = Fin 0"
  by (simp add: fadd_def mkZero_def)

lemma body64_tiny1:
  "body64 (copyTran 1) [Fin tiny] (Fin 0) NilChan 0 (init64 (copyTran 1) [Fin tiny]) =
     Inr \<lparr>conjVec64 = [Fin tiny], residual64 = [NaN], solution64 = [NaN],
          lastResidualDot64 = Fin 0\<rparr>"
  by (simp add: step64_defs copyTran_def greatestValue64_def Dot64_def fmul_tiny_tiny
      fadd_zero_zero fmax_def fgt_def fle_def isZero_def fdiv_def)
    (simp add: fmul_def fadd_def)

lemma body64_tiny2:
  "body64 (copyTran 2) [Fin tiny, Fin tiny] (Fin 0) NilChan 0
       (init64 (copyTran 2) [Fin tiny, Fin tiny]) =
     Inr \<lparr>conjVec64 = [Fin tiny, Fin tiny], residual64 = [NaN, NaN], solution64 = [NaN, NaN],
          lastResidualDot64 = Fin 0\<rparr>"
  by (simp add: step64_defs copyTran_def greatestValue64_def Dot64_def fmul_tiny_tiny
      fadd_zero_zero fmax_def fgt_def fle_def isZero_def fdiv_def numeral_2_eq_2)
    (simp add: fmul_def fadd_def)


lemma at_top64_tiny2:
  "at_top64 (copyTran 2) [Fin tiny, Fin tiny] (Fin 0) NilChan (Suc 0)
     \<lparr>conjVec64 = [Fin tiny, Fin tiny], residual64 = [NaN, NaN], solution64 = [NaN, NaN],
        lastResidualDot64 = Fin 0\<rparr>"
  by (rule at_next64 [OF at_start64 _ body64_tiny2]) (simp add: copyTran_def)

lemma Dim64_zeroTran: "Dim64 (zeroTran n) = n"
  by (simp add: zeroTran_def)

lemma Dim64_copyTran: "Dim64 (copyTran n) = n"
  by (simp add: copyTran_def)

lemma wellFormed64_copyTran: "wellFormed64 (copyTran n) b \<longleftrightarrow> length b = n"
  by (auto simp: wellFormed64_def copyTran_def Copy64_def)

lemma wellFormed64_zeroTran: "wellFormed64 (zeroTran n) b \<longleftrightarrow> length b = n"
  by (auto simp: wellFormed64_def zeroTran_def makeVector64_def)

lemma round64_one: "round64 1 = 1"
proof -
  have "roundHalfEven (1 / 2 powi (- 52)) = 2 ^ 52"
    by (simp add: roundHalfEven_def)
  then show ?thesis
    by (simp add: round64_def)
qed

lemma fmul_one_one: "fmul (Fin 1) (Fin 1) = Fin 1"
  by (simp add: fmul_def finish_def round64_one maxFloat_def)

lemma fadd_zero_one: "fadd (Fin 0) (Fin 1) = Fin 1"
  by (simp add: fadd_def finish_def round64_one maxFloat_def)

lemma body64_zeroTran:
  "body64 (zeroTran 1) [Fin 1] (Fin 0) NilChan 0 (init64 (zeroTran 1) [Fin 1]) =
     Inr \<lparr>conjVec64 = [Fin 1], residual64 = [NaN], solution64 = [PInf],
          lastResidualDot64 = Fin 1\<rparr>"
  by (simp add: step64_defs zeroTran_def greatestValue64_def Dot64_def fmul_one_one
      fadd_zero_one fmax_def fgt_def fle_def isZero_def)
    (simp add: fmul_def fadd_def fdiv_def finish_zero mkZero_def mkInf_def isZero_def)

lemma Solve64_zeroTran: "SolveStoppable64 (zeroTran 1) [Fin 1] (Fin 0) NilChan = [PInf]"
proof -
  let ?s = "\<lparr>conjVec64 = [Fin 1], residual64 = [NaN], solution64 = [PInf],
    lastResidualDot64 = Fin 1\<rparr>"
  have "loop64 (zeroTran 1) [Fin 1] (Fin 0) NilChan 0 (init64 (zeroTran 1) [Fin 1]) =
      loop64 (zeroTran 1) [Fin 1] (Fin 0) NilChan (Suc 0) ?s"
    by (rule loop64_step [OF _ body64_zeroTran]) (simp add: Dim64_zeroTran)
  also have "\<dots> = (CapReached, Suc 0, ?s)"
    by (rule loop64_cap) (simp add: Dim64_zeroTran)
  finally show ?thesis by (simp add: SolveStoppable64_def)
qed

subsection \<open>The first direction in exact arithmetic\<close>

lemma first_direction_exact:
  "0 \<le> prec \<Longrightarrow>
     (\<forall>s'. body t b prec cancelChan 0 s \<noteq> Inl (Degenerate, s')) \<and>
     (\<not> greatestValue (residual s) \<le> prec \<longrightarrow>
        conjVec (direction 0 s) = residual s \<and>
        \<not> allZero (conjVec (direction 0 s)) \<and>
        0 < lastResidualDot (direction 0 s)) \<and>
     (\<forall>s'. body t b prec cancelChan 0 s = Inr s' \<or>
           body t b prec cancelChan 0 s = Inl (Cancelled, s') \<longrightarrow> 0 < lastResidualDot s')"
proof -
  assume p: "0 \<le> prec"
  have dir: "conjVec (direction 0 s) = residual s"
    "lastResidualDot (direction 0 s) = Dot (residual s) (residual s)"
    by (simp_all add: direction_def Let_def Copy_def)
  have adv: "lastResidualDot (advance t b 0 s1) = lastResidualDot s1" for s1
    by (simp add: advance_def Let_def)
  have nz: "\<not> greatestValue (residual s) \<le> prec \<Longrightarrow> \<not> allZero (residual s)"
    using p by (rule not_converged_not_allZero)
  show ?thesis
    using nz Dot_self_pos [of "residual s"]
    by (auto simp: body_def Let_def dir adv split: if_splits)
qed

section \<open>The claims\<close>

subsection \<open>C1: the direction update of the later iterations\<close>




subsection \<open>C8: the identity operator and the right-hand side [3, 4]\<close>

text \<open>
  C8: for the 2\<times>2 identity and \<open>b = [3, 4]\<close>, \<open>Solve\<close> returns \<open>[3, 4]\<close>. The
  first loop body takes the direction \<open>[3, 4]\<close>, finds the step length \<open>1\<close> and leaves
  the solution \<open>[3, 4]\<close> and the residual \<open>[0, 0]\<close>; the second loop body stops at
  its convergence test, so the loop ends with \<open>i = 1\<close>.
\<close>

theorem Solve_identity2:
  "Solve identity2 [3, 4] = [3, 4] \<and>
   conjVec (direction 0 (init identity2 [3, 4])) = [3, 4] \<and>
   optimalDistance identity2 (direction 0 (init identity2 [3, 4])) = 1 \<and>
   body identity2 [3, 4] 0 NilChan 0 (init identity2 [3, 4]) =
     Inr \<lparr>conjVec = [3, 4], residual = [0, 0], solution = [3, 4], lastResidualDot = 25\<rparr> \<and>
   body identity2 [3, 4] 0 NilChan 1
     \<lparr>conjVec = [3, 4], residual = [0, 0], solution = [3, 4], lastResidualDot = 25\<rparr> =
     Inl (Converged,
       \<lparr>conjVec = [3, 4], residual = [0, 0], solution = [3, 4], lastResidualDot = 25\<rparr>) \<and>
   loop identity2 [3, 4] 0 NilChan 0 (init identity2 [3, 4]) =
     (Converged, 1,
      \<lparr>conjVec = [3, 4], residual = [0, 0], solution = [3, 4], lastResidualDot = 25\<rparr>)"
proof -
  have "Solve identity2 [3, 4] = [3, 4]"
    by (simp add: Solve_def SolvePrec_def SolveStoppable_def loop_identity2)
  moreover have "conjVec (direction 0 (init identity2 [3, 4])) = [3, 4]"
    by (simp add: direction_def init_def Copy_def Let_def)
  moreover have "optimalDistance identity2 (direction 0 (init identity2 [3, 4])) = 1"
    by (simp add: step_defs vector_defs init_def identity2_def matTran_def)
  ultimately show ?thesis
    using body_identity2_first body_identity2_second loop_identity2 by simp
qed

subsection \<open>C3: the convergence test at the head of each iteration\<close>



subsection \<open>C6: the two wrappers\<close>

text \<open>
  C6: \<open>SolvePrec\<close> returns what \<open>SolveStoppable\<close> returns for any channel whose
  poll never succeeds; the \<open>nil\<close> channel that \<open>SolvePrec\<close> passes is such a
  channel. \<open>Solve\<close> is \<open>SolvePrec\<close> with precision \<open>0\<close>.
\<close>

theorem wrappers_never_cancel: "((\<forall>i. \<not> poll c i) \<longrightarrow> SolvePrec t b prec = SolveStoppable t b prec c) \<and>
  (\<forall>i. \<not> poll NilChan i) \<and> SolvePrec t b prec = SolveStoppable t b prec NilChan \<and> Solve t b = SolvePrec t b 0"
proof -
  have "SolvePrec t b prec = SolveStoppable t b prec c" if "\<forall>i. \<not> poll c i"
    using that loop_cong_poll [of NilChan c t b prec 0 "init t b"]
    by (simp add: SolvePrec_def SolveStoppable_def)
  then show ?thesis by (simp add: Solve_def SolvePrec_def)
qed

theorem wrappers_never_cancel_witness:
  "(\<forall>i. \<not> poll (Channel (\<lambda>i. False)) i) \<and>
   SolveStoppable identity2 [3, 4] 0 (Channel (\<lambda>i. False)) = [3, 4] \<and>
   SolvePrec identity2 [3, 4] 0 = [3, 4]"
  using wrappers_never_cancel [of "Channel (\<lambda>i. False)" identity2 "[3, 4]" 0]
  by (simp add: SolvePrec_def SolveStoppable_def loop_identity2)

subsection \<open>C4: when the residual is recomputed\<close>




subsection \<open>C5: the loop ends, in one of four ways, after at most Dim bodies\<close>

text \<open>
  C5: for a right-hand side of \<open>t.Dim()\<close> entries and an operator that keeps that
  length, the loop (a total function) enters at most \<open>t.Dim()\<close> bodies and leaves in
  exactly one of four ways: the residual of the loop head is within the precision; the
  new direction is all zero; the poll of the channel succeeded after a complete body; or
  \<open>i\<close> has reached \<open>t.Dim()\<close>. Whatever the way, \<open>SolveStoppable\<close> returns
  the solution vector of that moment, of \<open>t.Dim()\<close> entries, and nothing else.
\<close>

theorem loop_four_exits:
  "wellFormed t b \<Longrightarrow> loop t b prec c 0 (init t b) = (e, k, s) \<Longrightarrow>
     SolveStoppable t b prec c = solution s \<and> length (solution s) = Dim t \<and>
     (if e = CapReached then k else Suc k) \<le> Dim t \<and>
     (case e of
        CapReached \<Rightarrow> k = Dim t \<and> at_top t b prec c k s
      | Converged \<Rightarrow> at_top t b prec c k s \<and> greatestValue (residual s) \<le> prec
      | Degenerate \<Rightarrow> allZero (conjVec s) \<and>
          (\<exists>s0. at_top t b prec c k s0 \<and> \<not> greatestValue (residual s0) \<le> prec \<and>
             s = direction k s0)
      | Cancelled \<Rightarrow> poll c k \<and>
          (\<exists>s0. at_top t b prec c k s0 \<and> \<not> greatestValue (residual s0) \<le> prec \<and>
             \<not> allZero (conjVec (direction k s0)) \<and> s = advance t b k (direction k s0)))"
proof -
  assume w: "wellFormed t b" and l: "loop t b prec c 0 (init t b) = (e, k, s)"
  have sol: "SolveStoppable t b prec c = solution s"
    by (simp add: SolveStoppable_def l)
  from loop_from_top [OF at_start l]
  consider (cap) "e = CapReached" "k = Dim t" "at_top t b prec c k s"
    | (brk) s0 where "e \<noteq> CapReached" "k < Dim t" "at_top t b prec c k s0"
        "body t b prec c k s0 = Inl (e, s)"
    by blast
  then show ?thesis
  proof cases
    case cap
    with sized_at_top [OF w cap(3)] sol show ?thesis by (simp add: sized_def)
  next
    case brk
    from sized_at_top [OF w brk(3)] have z: "sized (Dim t) k s0" .
    from brk(4) have len: "length (solution s) = Dim t"
      using z sized_direction [OF z] sized_advance [OF w sized_direction [OF z], of k]
      by (auto simp: body_Inl sized_def)
    from brk(4) show ?thesis
      using sol len brk(1,2,3) by (cases e) (auto simp: body_Inl)
  qed
qed

theorem loop_four_exits_witness:
  "wellFormed identity2 [3, 4] \<and>
   loop identity2 [3, 4] 0 NilChan 0 (init identity2 [3, 4]) =
     (Converged, 1,
      \<lparr>conjVec = [3, 4], residual = [0, 0], solution = [3, 4], lastResidualDot = 25\<rparr>) \<and>
   SolveStoppable identity2 [3, 4] 0 NilChan = [3, 4] \<and> Suc 1 \<le> Dim identity2 \<and>
   at_top identity2 [3, 4] 0 NilChan 1
     \<lparr>conjVec = [3, 4], residual = [0, 0], solution = [3, 4], lastResidualDot = 25\<rparr>"
proof -
  have w: "wellFormed identity2 [3, 4]"
    by (simp add: wellFormed_def identity2_def matTran_def)
  show ?thesis
    using w loop_four_exits [OF w loop_identity2] loop_identity2 by simp
qed

subsection \<open>C7: cancellation at the end of a complete body\<close>



subsection \<open>C2: the residual invariant\<close>

text \<open>
  C2: in exact arithmetic, for a linear operator and a right-hand side of
  \<open>t.Dim()\<close> entries, each time control is at the head of the loop the residual is
  \<open>b - T \<cdot> solution\<close>. It is so for the initial variables; the step keeps it,
  through the incremental update as through the recomputation; and the recomputation
  gives it whatever the variables were before.
\<close>

theorem residual_invariant:
  assumes "linearOp t" and "wellFormed t b"
  shows "(at_top t b prec cancelChan i s \<longrightarrow>
            residual s = map2 (\<lambda>y x. y - x) b (Apply t (solution s))) \<and>
         consistent t b (init t b) \<and>
         (sized (Dim t) (Suc j) s1 \<and> consistent t b s1 \<longrightarrow>
            consistent t b (advance t b j s1)) \<and>
         (j \<noteq> 0 \<and> j mod residualUpdateFrequency = 0 \<longrightarrow>
            consistent t b (advance t b j s1))"
  using assms consistent_at_top [OF assms, of prec cancelChan i s]
    consistent_init [OF assms] consistent_advance [OF assms, of j s1]
    consistent_recomputed [of j t b s1]
  by (auto simp: consistent_def)

theorem residual_invariant_witness:
  "linearOp diag21 \<and> wellFormed diag21 [1, 1] \<and>
   at_top diag21 [1, 1] 0 NilChan (Suc 0) after_first \<and>
   residual after_first = [- (1 / 3), 1 / 3] \<and>
   map2 (\<lambda>y x. y - x) [1, 1] (Apply diag21 (solution after_first)) = [- (1 / 3), 1 / 3] \<and>
   consistent diag21 [1, 1] (init diag21 [1, 1])"
  using residual_invariant [OF linearOp_diag21 wellFormed_diag21,
      of 0 NilChan "Suc 0" after_first 0 "init diag21 [1, 1]"]
    linearOp_diag21 wellFormed_diag21 at_top_after_first
  by (simp add: after_first_def)

subsection \<open>C9: a division by zero is not guarded\<close>

text \<open>
  C9, on the float64 embedding: take a run that is at the head of an iteration whose
  convergence test fails. If the new direction is not all zero and
  \<open>conjVec \<cdot> (T \<cdot> conjVec) == 0\<close>, or if the iteration is not the first and
  \<open>lastResidualDot == 0\<close>, then nothing stops the division: in the second case
  \<open>projAmount\<close> is an infinity or not a number and so is every entry of the new
  direction, in both cases the direction passes the all-zero test, \<open>optimalDistance\<close>
  is an infinity or not a number, and \<open>SolveStoppable\<close> returns, as an ordinary
  result, a vector of \<open>t.Dim()\<close> entries each of which is an infinity or not a number.
\<close>

theorem division_by_zero_propagates:
  assumes "wellFormed64 t b" and "at_top64 t b prec cancelChan i s" and "i < Dim64 t"
    and "\<not> fle (greatestValue64 (residual64 s)) prec"
    and "\<not> allZero64 (conjVec64 (direction64 i s)) \<and>
         isZero (Dot64 (conjVec64 (direction64 i s)) (Apply64 t (conjVec64 (direction64 i s)))) \<or>
         i \<noteq> 0 \<and> isZero (lastResidualDot64 s)"
  shows "nonFinite (optimalDistance64 t (direction64 i s)) \<and>
         (i \<noteq> 0 \<and> isZero (lastResidualDot64 s) \<longrightarrow>
            nonFinite (fdiv (fneg (Dot64 (residual64 s) (residual64 s))) (lastResidualDot64 s)) \<and>
            list_all nonFinite (conjVec64 (direction64 i s))) \<and>
         \<not> allZero64 (conjVec64 (direction64 i s)) \<and>
         length (SolveStoppable64 t b prec cancelChan) = Dim64 t \<and>
         list_all nonFinite (SolveStoppable64 t b prec cancelChan)"
proof -
  note w = assms(1) and a = assms(2) and i = assms(3) and nc = assms(4)
  from sized64_at_top [OF w a] have z: "sized64 (Dim64 t) i s" .
  from i have n: "0 < Dim64 t" by simp
  have beta: "nonFinite (fdiv (fneg (Dot64 (residual64 s) (residual64 s))) (lastResidualDot64 s)) \<and>
      list_all nonFinite (conjVec64 (direction64 i s)) \<and>
      \<not> allZero64 (conjVec64 (direction64 i s)) \<and>
      nonFinite (optimalDistance64 t (direction64 i s))"
    if l: "i \<noteq> 0 \<and> isZero (lastResidualDot64 s)"
  proof -
    from l have i0: "i \<noteq> 0" and lz: "isZero (lastResidualDot64 s)" by simp_all
    note d = zero_lastResidualDot_direction [OF z n i0 lz]
    from d(3) n have "conjVec64 (direction64 i s) \<noteq> []" by auto
    with d(2) have "\<not> allZero64 (conjVec64 (direction64 i s))" by (rule allZero64_nonFinite)
    moreover from nonFinite_direction_step [OF w sized64_direction [OF z] n d(2)]
    have "nonFinite (optimalDistance64 t (direction64 i s))" by simp
    ultimately show ?thesis using d(1,2) by simp
  qed
  have nz: "\<not> allZero64 (conjVec64 (direction64 i s))"
    using assms(5) beta by blast
  have od: "nonFinite (optimalDistance64 t (direction64 i s))"
    using assms(5) beta by (auto simp: optimalDistance64_def nonFinite_fdiv_zero)
  from nonFinite_step [OF w a i nc nz od] nz od beta show ?thesis by blast
qed

theorem division_by_zero_propagates_witness:
  "wellFormed64 (zeroTran 1) [Fin 1] \<and>
   at_top64 (zeroTran 1) [Fin 1] (Fin 0) NilChan 0 (init64 (zeroTran 1) [Fin 1]) \<and>
   0 < Dim64 (zeroTran 1) \<and>
   \<not> fle (greatestValue64 [Fin 1]) (Fin 0) \<and> \<not> allZero64 [Fin 1] \<and>
   isZero (Dot64 [Fin 1] (Apply64 (zeroTran 1) [Fin 1])) \<and>
   nonFinite (optimalDistance64 (zeroTran 1) (direction64 0 (init64 (zeroTran 1) [Fin 1]))) \<and>
   length (SolveStoppable64 (zeroTran 1) [Fin 1] (Fin 0) NilChan) = 1 \<and>
   list_all nonFinite (SolveStoppable64 (zeroTran 1) [Fin 1] (Fin 0) NilChan) \<and>
   SolveStoppable64 (zeroTran 1) [Fin 1] (Fin 0) NilChan = [PInf] \<and>
   wellFormed64 (copyTran 2) [Fin tiny, Fin tiny] \<and>
   at_top64 (copyTran 2) [Fin tiny, Fin tiny] (Fin 0) NilChan (Suc 0)
     \<lparr>conjVec64 = [Fin tiny, Fin tiny], residual64 = [NaN, NaN], solution64 = [NaN, NaN],
        lastResidualDot64 = Fin 0\<rparr> \<and>
   Suc 0 < Dim64 (copyTran 2) \<and> \<not> fle (greatestValue64 [NaN, NaN]) (Fin 0) \<and>
   Suc 0 \<noteq> 0 \<and> isZero (Fin 0) \<and>
   list_all nonFinite (SolveStoppable64 (copyTran 2) [Fin tiny, Fin tiny] (Fin 0) NilChan)"
proof -
  let ?s = "\<lparr>conjVec64 = [Fin tiny, Fin tiny], residual64 = [NaN, NaN],
    solution64 = [NaN, NaN], lastResidualDot64 = Fin 0\<rparr>"
  have w2: "wellFormed64 (copyTran 2) [Fin tiny, Fin tiny]"
    by (simp add: wellFormed64_copyTran)
  have d2: "Suc 0 < Dim64 (copyTran 2)" by (simp add: Dim64_copyTran)
  have c2: "\<not> fle (greatestValue64 (residual64 ?s)) (Fin 0)"
    by (simp add: greatestValue64_def fmax_def fle_def)
  have h2: "\<not> allZero64 (conjVec64 (direction64 (Suc 0) ?s)) \<and>
         isZero (Dot64 (conjVec64 (direction64 (Suc 0) ?s))
           (Apply64 (copyTran 2) (conjVec64 (direction64 (Suc 0) ?s)))) \<or>
         Suc 0 \<noteq> 0 \<and> isZero (lastResidualDot64 ?s)"
    by (simp add: isZero_def)
  note beta = division_by_zero_propagates [OF w2 at_top64_tiny2 d2 c2 h2]
  have w: "wellFormed64 (zeroTran 1) [Fin 1]" by (simp add: wellFormed64_zeroTran)
  have d: "0 < Dim64 (zeroTran 1)" by (simp add: zeroTran_def)
  have c: "\<not> fle (greatestValue64 (residual64 (init64 (zeroTran 1) [Fin 1]))) (Fin 0)"
    by (simp add: init64_def Copy64_def greatestValue64_def fmax_def fgt_def fle_def isZero_def)
  have cv: "conjVec64 (direction64 0 (init64 (zeroTran 1) [Fin 1])) = [Fin 1]"
    by (simp add: direction64_def init64_def Copy64_def Let_def)
  have z: "isZero (Dot64 [Fin 1] (Apply64 (zeroTran 1) [Fin 1]))"
    by (simp add: zeroTran_def makeVector64_def Dot64_def fmul_def finish_zero mkZero_def
        fadd_zero_zero isZero_def)
  have h: "\<not> allZero64 (conjVec64 (direction64 0 (init64 (zeroTran 1) [Fin 1]))) \<and>
         isZero (Dot64 (conjVec64 (direction64 0 (init64 (zeroTran 1) [Fin 1])))
           (Apply64 (zeroTran 1) (conjVec64 (direction64 0 (init64 (zeroTran 1) [Fin 1]))))) \<or>
         (0::nat) \<noteq> 0 \<and> isZero (lastResidualDot64 (init64 (zeroTran 1) [Fin 1]))"
    unfolding cv using z by (simp add: isZero_def)
  have r: "residual64 (init64 (zeroTran 1) [Fin 1]) = [Fin 1]"
    by (simp add: init64_def Copy64_def)
  note a = at_start64 [of "zeroTran 1" "[Fin 1]" "Fin 0" NilChan]
  from division_by_zero_propagates [OF w a d c h]
  have first: "nonFinite (optimalDistance64 (zeroTran 1) (direction64 0 (init64 (zeroTran 1) [Fin 1]))) \<and>
      length (SolveStoppable64 (zeroTran 1) [Fin 1] (Fin 0) NilChan) = 1 \<and>
      list_all nonFinite (SolveStoppable64 (zeroTran 1) [Fin 1] (Fin 0) NilChan)"
    by (simp add: Dim64_zeroTran)
  from c have c': "\<not> fle (greatestValue64 [Fin 1]) (Fin 0)" unfolding r .
  from c2 have c2': "\<not> fle (greatestValue64 [NaN, NaN]) (Fin 0)" by simp
  have nz: "\<not> allZero64 [Fin 1]" by (simp add: isZero_def)
  from first beta w a d c' z w2 at_top64_tiny2 d2 c2' nz Solve64_zeroTran
  show ?thesis by (simp add: isZero_def)
qed

subsection \<open>C10: the first direction is never the zero vector\<close>

text \<open>
  C10, as stated: after the first iteration \<open>lastResidualDot\<close> is strictly positive.
  In float64 the squares can underflow: for the one-entry right-hand side
  \<open>2 powi (- 600)\<close>, the precision \<open>0\<close> and the identity of dimension \<open>1\<close> the
  convergence test fails, the direction is not all zero, the first body completes, and
  \<open>lastResidualDot\<close> is \<open>0\<close>.
\<close>

theorem lastResidualDot_underflow_counterexample:
  "tiny = 2 powi (- 600) \<and> fle (Fin 0) (Fin 0) \<and> \<not> isNaN (Fin tiny) \<and>
   \<not> fle (greatestValue64 (residual64 (init64 (copyTran 1) [Fin tiny]))) (Fin 0) \<and>
   \<not> allZero64 (conjVec64 (direction64 0 (init64 (copyTran 1) [Fin tiny]))) \<and>
   body64 (copyTran 1) [Fin tiny] (Fin 0) NilChan 0 (init64 (copyTran 1) [Fin tiny]) =
     Inr \<lparr>conjVec64 = [Fin tiny], residual64 = [NaN], solution64 = [NaN],
          lastResidualDot64 = Fin 0\<rparr> \<and>
   \<not> fgt (lastResidualDot64 (direction64 0 (init64 (copyTran 1) [Fin tiny]))) (Fin 0)"
proof -
  have "lastResidualDot64 (direction64 0 (init64 (copyTran 1) [Fin tiny])) = Fin 0"
    by (simp add: direction64_def init64_def Copy64_def Let_def Dot64_def fmul_tiny_tiny
        fadd_zero_zero)
  moreover have "conjVec64 (direction64 0 (init64 (copyTran 1) [Fin tiny])) = [Fin tiny]"
    by (simp add: direction64_def init64_def Copy64_def Let_def)
  moreover have "greatestValue64 (residual64 (init64 (copyTran 1) [Fin tiny])) = Fin tiny"
    by (simp add: init64_def Copy64_def greatestValue64_def fmax_def fgt_def fle_def isZero_def)
  ultimately show ?thesis
    using body64_tiny1 tiny_def by (simp add: fgt_def fle_def isZero_def)
qed

text \<open>
  C10, amended: with a precision that is not negative, the loop body of the first
  iteration (\<open>i = 0\<close>) never leaves through the all-zero test of the direction, in
  float64 as in exact arithmetic: when the convergence test has failed, the direction is a
  copy of a residual that is not all zero. In exact arithmetic \<open>lastResidualDot\<close> is
  then strictly positive, also when the body is complete; in float64 it can be zero.
\<close>

theorem first_direction_nonzero:
  "fle (Fin 0) prec64 \<Longrightarrow> 0 \<le> prec \<Longrightarrow>
     ((\<forall>s'. body64 t64 b64 prec64 cancelChan 0 s64 \<noteq> Inl (Degenerate, s')) \<and>
      (\<not> fle (greatestValue64 (residual64 s64)) prec64 \<longrightarrow>
         conjVec64 (direction64 0 s64) = residual64 s64 \<and>
         \<not> allZero64 (conjVec64 (direction64 0 s64)))) \<and>
     ((\<forall>s'. body t b prec cancelChan 0 s \<noteq> Inl (Degenerate, s')) \<and>
      (\<not> greatestValue (residual s) \<le> prec \<longrightarrow>
         conjVec (direction 0 s) = residual s \<and>
         \<not> allZero (conjVec (direction 0 s)) \<and>
         0 < lastResidualDot (direction 0 s)) \<and>
      (\<forall>s'. body t b prec cancelChan 0 s = Inr s' \<or>
            body t b prec cancelChan 0 s = Inl (Cancelled, s') \<longrightarrow> 0 < lastResidualDot s'))"
  using first_direction64 [of prec64 t64 b64 cancelChan s64]
    first_direction_exact [of prec t b cancelChan s]
  by blast

theorem first_direction_nonzero_witness:
  "fle (Fin 0) (Fin 0) \<and> (0::real) \<le> 0 \<and>
   \<not> fle (greatestValue64 (residual64 (init64 (copyTran 1) [Fin tiny]))) (Fin 0) \<and>
   \<not> allZero64 (conjVec64 (direction64 0 (init64 (copyTran 1) [Fin tiny]))) \<and>
   \<not> greatestValue (residual (init identity2 [3, 4])) \<le> 0 \<and>
   \<not> allZero (conjVec (direction 0 (init identity2 [3, 4]))) \<and>
   0 < lastResidualDot (direction 0 (init identity2 [3, 4]))"
proof -
  have p: "fle (Fin 0) (Fin 0)" by (simp add: fle_def)
  have g: "\<not> fle (greatestValue64 (residual64 (init64 (copyTran 1) [Fin tiny]))) (Fin 0)"
    by (simp add: init64_def Copy64_def greatestValue64_def fmax_def fgt_def fle_def isZero_def)
  have r: "\<not> greatestValue (residual (init identity2 [3, 4])) \<le> 0"
    by (simp add: init_def greatestValue_def Copy_def)
  from first_direction_nonzero [OF p order_refl, of "copyTran 1" "[Fin tiny]" NilChan
      "init64 (copyTran 1) [Fin tiny]" identity2 "[3, 4]" "init identity2 [3, 4]"] p g r
  show ?thesis by blast
qed

end
